theory Spec2Isabelle
  imports Main "HOL-Library.Multiset" "HOL-Library.List_Lexorder" "HOL-Library.Char_ord"
begin

section \<open>The alert summary view of \<^verbatim>\<open>kpireport/plugins/prometheus.py\<close>\<close>

text \<open>
  The development embeds the class \<^verbatim>\<open>PrometheusAlertSummary\<close>. Instants (pandas
  timestamps) and durations (\<^verbatim>\<open>timedelta\<close>) are integers counting one common unit,
  the nanosecond of the pandas timestamp; the 64-bit bounds of the pandas timestamp are
  not modelled. A window is the two-element list \<^verbatim>\<open>[start, end]\<close> of the source, a
  pair here. Every exception the view can raise is a value of \<open>error\<close>; a function that
  can raise returns \<open>error + 'a\<close>.
\<close>

type_synonym instant = int
type_synonym duration = int
type_synonym window = "instant \<times> instant"

datatype error =
    ValueError string
  | TypeError
  | OverflowError
  | KeyError string
  | ZeroDivisionError

subsection \<open>\<^verbatim>\<open>_parse_resolution\<close>\<close>

text \<open>
  \<^verbatim>\<open>re.match(r"([0-9]+)([smhdwy])", res)\<close> matches at the start of \<^verbatim>\<open>res\<close> and nowhere
  else, and does not look at what follows the match. Group 1 is greedy: it is the longest
  run of digits at the start. A shorter run is followed by a digit, never by a unit
  letter, so backtracking finds no other match.
\<close>

definition is_digit :: "char \<Rightarrow> bool" where
  "is_digit c = (c \<in> set ''0123456789'')"

definition is_unit :: "char \<Rightarrow> bool" where
  "is_unit c = (c \<in> set ''smhdwy'')"

definition resolution_match :: "string \<Rightarrow> (string \<times> char) option" where
  "resolution_match res =
     (let group1 = takeWhile is_digit res in
      case dropWhile is_digit res of
        [] \<Rightarrow> None
      | group2 # _ \<Rightarrow> if group1 \<noteq> [] \<and> is_unit group2 then Some (group1, group2) else None)"

text \<open>\<^verbatim>\<open>int(match.group(1))\<close>: the decimal value of a run of digits.\<close>

definition digit_val :: "char \<Rightarrow> int" where
  "digit_val c = of_char c - 48"

definition int_of_digits :: "string \<Rightarrow> int" where
  "int_of_digits ds = foldl (\<lambda>n c. 10 * n + digit_val c) 0 ds"

text \<open>
  The constructor \<^verbatim>\<open>datetime.timedelta(**{keyword: n})\<close> of the Python library, for an
  integer \<^verbatim>\<open>n\<close>: it knows seven keywords and raises \<^verbatim>\<open>TypeError\<close> for any other, and
  raises \<^verbatim>\<open>OverflowError\<close> when the normalised number of days is beyond 999999999 in
  magnitude. The result is the length in nanoseconds.
\<close>

definition timedelta_keywords :: "(string \<times> int) list" where
  "timedelta_keywords =
     [(''days'', 86400000000000), (''seconds'', 1000000000), (''microseconds'', 1000),
      (''milliseconds'', 1000000), (''minutes'', 60000000000), (''hours'', 3600000000000),
      (''weeks'', 604800000000000)]"

definition datetime_timedelta :: "string \<Rightarrow> int \<Rightarrow> error + duration" where
  "datetime_timedelta keyword n =
     (case map_of timedelta_keywords keyword of
        None \<Rightarrow> Inl TypeError
      | Some unit_ns \<Rightarrow>
          if \<bar>(n * unit_ns) div 86400000000000\<bar> > 999999999 then Inl OverflowError
          else Inr (n * unit_ns))"

definition mapping :: "(char \<times> string) list" where
  "mapping =
     [(CHR ''s'', ''seconds''), (CHR ''m'', ''minutes''), (CHR ''h'', ''hours''),
      (CHR ''d'', ''days''), (CHR ''w'', ''weeks''), (CHR ''y'', ''years'')]"

definition parse_resolution :: "string \<Rightarrow> error + duration" where
  "parse_resolution res =
     (case resolution_match res of
        None \<Rightarrow> Inl (ValueError ''Invalid resolution format'')
      | Some (group1, group2) \<Rightarrow>
          (case map_of mapping group2 of
             None \<Rightarrow> Inl (KeyError [group2])
           | Some keyword \<Rightarrow> datetime_timedelta keyword (int_of_digits group1)))"

subsection \<open>\<^verbatim>\<open>_compute_time_windows\<close>\<close>

text \<open>
  \<^verbatim>\<open>
    windows = [[list_ts[0], list_ts[0] + self.resolution]]
    for ts in list_ts:
        if ts > windows[-1][1]:
            windows.append([ts, ts + self.resolution])
        else:
            windows[-1][1] = ts + self.resolution
  \<close>
  Inside the loop the list \<^verbatim>\<open>windows\<close> is never empty. The loop state carries it as the
  windows before the last one (\<open>closed\<close>) and the last one (\<open>cur\<close>), so that
  \<^verbatim>\<open>windows[-1]\<close> is \<open>cur\<close> and \<^verbatim>\<open>windows\<close> is \<open>closed @ [cur]\<close>. The loop runs over
  the whole of \<^verbatim>\<open>list_ts\<close>, its first element included.
\<close>

fun windows_loop :: "duration \<Rightarrow> window list \<Rightarrow> window \<Rightarrow> instant list \<Rightarrow> window list" where
  "windows_loop r closed cur [] = closed @ [cur]"
| "windows_loop r closed cur (ts # rest) =
     (if ts > snd cur
      then windows_loop r (closed @ [cur]) (ts, ts + r) rest
      else windows_loop r closed (fst cur, ts + r) rest)"

definition compute_time_windows :: "duration \<Rightarrow> instant list \<Rightarrow> window list" where
  "compute_time_windows r list_ts =
     (case list_ts of
        [] \<Rightarrow> []
      | t0 # _ \<Rightarrow> windows_loop r [] (t0, t0 + r) list_ts)"

subsection \<open>\<^verbatim>\<open>_compress_time_windows\<close>\<close>

text \<open>
  \<^verbatim>\<open>
    sorted_windows = sorted(windows, key=itemgetter(0))
    compressed = sorted_windows[:1]
    for start, end in sorted_windows[1:]:
        if start < compressed[-1][1]:
            compressed[-1][1] = max(compressed[-1][1], end)
        else:
            compressed.append([start, end])
  \<close>
  \<^verbatim>\<open>sorted\<close> is stable, as \<^const>\<open>sort_key\<close> is. The loop runs only when
  \<^verbatim>\<open>compressed\<close> holds a window, and its state is carried as in \<^const>\<open>windows_loop\<close>.
\<close>

fun compress_loop :: "window list \<Rightarrow> window \<Rightarrow> window list \<Rightarrow> window list" where
  "compress_loop closed cur [] = closed @ [cur]"
| "compress_loop closed cur ((start, stop) # rest) =
     (if start < snd cur
      then compress_loop closed (fst cur, max (snd cur) stop) rest
      else compress_loop (closed @ [cur]) (start, stop) rest)"

definition compress_time_windows :: "window list \<Rightarrow> window list" where
  "compress_time_windows ws =
     (case sort_key fst ws of
        [] \<Rightarrow> []
      | w # rest \<Rightarrow> compress_loop [] w rest)"

subsection \<open>\<^verbatim>\<open>_total_time\<close>\<close>

text \<open>
  \<^verbatim>\<open>reduce(lambda agg, x: agg + (x[1] - x[0]), windows, timedelta(0))\<close>
\<close>

definition total_time_of :: "window list \<Rightarrow> duration" where
  "total_time_of ws = fold (\<lambda>x agg. agg + (snd x - fst x)) ws 0"

subsection \<open>\<^verbatim>\<open>_normalize_time_windows\<close>\<close>

text \<open>
  \<^verbatim>\<open>
    td = self.report.timedelta
    return [
        (max(0, (round(100 * (w[0] - self.report.start_date) / td, 2))),
         round(100 * (w[1] - w[0]) / td, 2))
        for w in windows
    ]
  \<close>
  The quotient of two durations is a Python float. Floating-point arithmetic is outside
  this development and enters as two parameters: \<open>pct a td\<close> stands for
  \<^verbatim>\<open>round(100 * a / td, 2)\<close> with \<^verbatim>\<open>td\<close> not zero, and \<open>max0 x\<close> for \<^verbatim>\<open>max(0, x)\<close>. The
  division by a zero duration raises \<^verbatim>\<open>ZeroDivisionError\<close> at the first window.
\<close>

record report =
  start_date :: instant
  timedelta :: duration

definition normalize_time_windows ::
  "(int \<Rightarrow> int \<Rightarrow> 'f) \<Rightarrow> ('f \<Rightarrow> 'f) \<Rightarrow> report \<Rightarrow> window list \<Rightarrow> error + ('f \<times> 'f) list" where
  "normalize_time_windows pct max0 rep ws =
     (let td = timedelta rep in
      if ws \<noteq> [] \<and> td = 0 then Inl ZeroDivisionError
      else Inr (map (\<lambda>w. (max0 (pct (fst w - start_date rep) td), pct (snd w - fst w) td)) ws))"

subsection \<open>The table of samples and the pandas operations the view calls\<close>

text \<open>
  The table is the \<^verbatim>\<open>DataFrame\<close> that \<^verbatim>\<open>PrometheusDatasource.query\<close> builds: the
  columns \<^verbatim>\<open>time\<close> and \<^verbatim>\<open>value\<close> first, then one column for each label; or no column
  and no row at all, when the server returned no series (\<^verbatim>\<open>pd.DataFrame()\<close>). A row
  holds its timestamp and its label cells; a label the row does not carry is \<^verbatim>\<open>NaN\<close>,
  \<open>None\<close> here. The float of the \<^verbatim>\<open>value\<close> column is never read by the view and is
  left out of the row; it is taken to be a number, never \<^verbatim>\<open>NaN\<close>. No label is named
  \<^verbatim>\<open>time\<close> or \<^verbatim>\<open>value\<close>.
\<close>

record sample =
  time :: instant
  cells :: "(string \<times> string) list"

record dataframe =
  columns :: "string list"
  rows :: "sample list"

definition cell :: "sample \<Rightarrow> string \<Rightarrow> string option" where
  "cell row c = map_of (cells row) c"

text \<open>\<^verbatim>\<open>df[c]\<close> raises \<^verbatim>\<open>KeyError\<close> when the table has no column \<^verbatim>\<open>c\<close>.\<close>

definition column :: "dataframe \<Rightarrow> string \<Rightarrow> error + string option list" where
  "column df c =
     (if c \<in> set (columns df) then Inr (map (\<lambda>row. cell row c) (rows df))
      else Inl (KeyError c))"

text \<open>
  \<^verbatim>\<open>df[df[c] == v]\<close>: the rows whose cell equals \<^verbatim>\<open>v\<close>, the columns unchanged. \<^verbatim>\<open>NaN\<close>
  equals nothing, itself included.
\<close>

definition select_eq :: "dataframe \<Rightarrow> string \<Rightarrow> string option \<Rightarrow> error + dataframe" where
  "select_eq df c v =
     (if c \<in> set (columns df)
      then Inr (df\<lparr>rows := filter (\<lambda>row. v \<noteq> None \<and> cell row c = v) (rows df)\<rparr>)
      else Inl (KeyError c))"

text \<open>\<^verbatim>\<open>df.drop(labels=ls, axis="columns", errors="ignore")\<close>\<close>

definition drop_ignore :: "string list \<Rightarrow> dataframe \<Rightarrow> dataframe" where
  "drop_ignore ls df = df\<lparr>columns := filter (\<lambda>c. c \<notin> set ls) (columns df)\<rparr>"

text \<open>\<^verbatim>\<open>df.drop(labels=c, axis="columns")\<close> raises when the column is missing.\<close>

definition drop_column :: "string \<Rightarrow> dataframe \<Rightarrow> error + dataframe" where
  "drop_column c df =
     (if c \<in> set (columns df) then Inr (df\<lparr>columns := filter (\<lambda>x. x \<noteq> c) (columns df)\<rparr>)
      else Inl (KeyError c))"

text \<open>
  \<^verbatim>\<open>df.dropna(how="all", axis="columns")\<close> keeps the columns that hold a value in some
  row; a table without rows loses all of its columns.
\<close>

definition notna :: "sample \<Rightarrow> string \<Rightarrow> bool" where
  "notna row c = (c = ''time'' \<or> c = ''value'' \<or> cell row c \<noteq> None)"

definition dropna_all_columns :: "dataframe \<Rightarrow> dataframe" where
  "dropna_all_columns df =
     df\<lparr>columns := filter (\<lambda>c. list_ex (\<lambda>row. notna row c) (rows df)) (columns df)\<rparr>"

text \<open>
  \<^verbatim>\<open>pd.tseries.frequencies.to_offset(self.resolution)\<close> has no offset for a duration
  that is not positive and raises \<^verbatim>\<open>ValueError\<close>. \<^verbatim>\<open>Series.dt.round(offset)\<close> rounds each
  timestamp to the nearest multiple of the offset, a tie to the even multiple.
\<close>

definition to_offset :: "duration \<Rightarrow> error + duration" where
  "to_offset r = (if r \<le> 0 then Inl (ValueError ''Invalid frequency'') else Inr r)"

definition round_to :: "duration \<Rightarrow> instant \<Rightarrow> instant" where
  "round_to unit t =
     (let quotient = t div unit; remainder = t mod unit in
      if 2 * remainder > unit \<or> (2 * remainder = unit \<and> odd quotient)
      then (quotient + 1) * unit
      else quotient * unit)"

definition dt_round :: "duration \<Rightarrow> dataframe \<Rightarrow> error + dataframe" where
  "dt_round offset df =
     (if ''time'' \<in> set (columns df)
      then Inr (df\<lparr>rows := map (\<lambda>row. row\<lparr>time := round_to offset (time row)\<rparr>) (rows df)\<rparr>)
      else Inl (KeyError ''time''))"

text \<open>
  \<^verbatim>\<open>df.groupby(ls)["time"]\<close>, iterated: one pair of key and timestamps for each distinct
  tuple of the key cells, the keys in ascending order, the timestamps of a group in the
  order of the rows. A row with a \<^verbatim>\<open>NaN\<close> key cell belongs to no group. An empty list of
  keys on a table with rows raises \<^verbatim>\<open>ValueError\<close>.
\<close>

definition group_key :: "string list \<Rightarrow> sample \<Rightarrow> string list option" where
  "group_key ls row = those (map (cell row) ls)"

definition keyed_times :: "string list \<Rightarrow> sample list \<Rightarrow> (string list \<times> instant) list" where
  "keyed_times ls rs =
     concat (map (\<lambda>row. case group_key ls row of None \<Rightarrow> [] | Some k \<Rightarrow> [(k, time row)]) rs)"

definition groupby_time :: "string list \<Rightarrow> dataframe \<Rightarrow> error + (string list \<times> instant list) list" where
  "groupby_time ls df =
     (if ls = [] \<and> rows df \<noteq> [] then Inl (ValueError ''No group keys passed!'')
      else if ''time'' \<notin> set (columns df) then Inl (KeyError ''time'')
      else
        let keyed = keyed_times ls (rows df) in
        Inr (map (\<lambda>k. (k, map snd (filter (\<lambda>p. fst p = k) keyed)))
               (sort (remdups (map fst keyed)))))"

text \<open>\<^verbatim>\<open>Series.unique()\<close>: the distinct cells in the order of their first appearance.\<close>

fun unique_from :: "'a list \<Rightarrow> 'a list \<Rightarrow> 'a list" where
  "unique_from seen [] = []"
| "unique_from seen (x # xs) =
     (if x \<in> set seen then unique_from seen xs else x # unique_from (x # seen) xs)"

definition unique :: "'a list \<Rightarrow> 'a list" where
  "unique xs = unique_from [] xs"

text \<open>
  \<^verbatim>\<open>sorted(xs, key=k, reverse=True)\<close>: Python reverses the list, sorts it stably in
  ascending order of the key and reverses the result.
\<close>

definition sorted_reverse :: "('a \<Rightarrow> 'k::linorder) \<Rightarrow> 'a list \<Rightarrow> 'a list" where
  "sorted_reverse k xs = rev (sort_key k (rev xs))"

subsection \<open>\<^verbatim>\<open>_template_vars\<close>\<close>

text \<open>
  The view after \<^verbatim>\<open>init\<close>: \<open>resolution\<close> is the parsed duration, \<open>labels\<close> is \<open>None\<close> or
  the items of the dictionary in their order. The result of the datasource's query is an
  argument of the model. The \<open>alertname\<close> of a summary is the loop variable, a cell of
  the column \<^verbatim>\<open>alertname\<close>. The key \<^verbatim>\<open>show_timeline\<close> of the returned dictionary is the
  field \<open>show_timeline_var\<close>, the view having a field of that name already.
\<close>

record view =
  resolution :: duration
  ignore_labels :: "string list"
  labels :: "(string \<times> string) list option"
  show_timeline :: bool
  report :: report

record alert_summary =
  alertname :: "string option"
  total_time :: duration
  num_firings :: nat
  windows :: "window list"

record 'f template_vars_result =
  summary :: "alert_summary list"
  timeline :: "('f \<times> 'f) list"
  show_timeline_var :: bool

text \<open>
  \<^verbatim>\<open>
    if self.labels:
        for key, value in self.labels.items():
            df = df[df[key] == value]
  \<close>
\<close>

fun filter_labels :: "(string \<times> string) list \<Rightarrow> dataframe \<Rightarrow> error + dataframe" where
  "filter_labels [] df = Inr df"
| "filter_labels ((key, v) # items) df =
     (case select_eq df key (Some v) of
        Inl e \<Rightarrow> Inl e
      | Inr df' \<Rightarrow> filter_labels items df')"

text \<open>
  The table of one alert name, up to the grouping: the rows of the name, without the
  column \<^verbatim>\<open>alertname\<close> and the columns no row uses, the timestamps rounded; then the
  timestamps of each label group. \<^verbatim>\<open>labels = list(df_a.columns[2:])\<close> are the columns
  after the first two.
\<close>

definition alert_groups ::
  "view \<Rightarrow> dataframe \<Rightarrow> string option \<Rightarrow> error + (string list \<times> instant list) list" where
  "alert_groups self df a =
     (case select_eq df ''alertname'' a of
        Inl e \<Rightarrow> Inl e
      | Inr df_a \<Rightarrow>
     (case drop_column ''alertname'' df_a of
        Inl e \<Rightarrow> Inl e
      | Inr df_a \<Rightarrow>
     (let df_a = dropna_all_columns df_a in
      case to_offset (resolution self) of
        Inl e \<Rightarrow> Inl e
      | Inr offset \<Rightarrow>
     (case dt_round offset df_a of
        Inl e \<Rightarrow> Inl e
      | Inr df_a \<Rightarrow> groupby_time (drop 2 (columns df_a)) df_a))))"

text \<open>
  The body of the loop over the alert names, from the groups on:
  \<^verbatim>\<open>
    firings = [dict(labels=..., windows=self._compute_time_windows(df_times))
               for labelvalues, df_times in df_ag]
    all_firings = list(chain(*[f["windows"] for f in firings]))
    windows = self._compress_time_windows(all_firings)
    total_time = self._total_time(windows)
    summary.append(dict(alertname=alertname, total_time=total_time,
                        num_firings=len(all_firings), windows=windows))
  \<close>
\<close>

definition all_firings :: "duration \<Rightarrow> (string list \<times> instant list) list \<Rightarrow> window list" where
  "all_firings r df_ag = concat (map (\<lambda>(labelvalues, df_times). compute_time_windows r df_times) df_ag)"

definition summarise :: "duration \<Rightarrow> string option \<Rightarrow> (string list \<times> instant list) list \<Rightarrow> alert_summary" where
  "summarise r a df_ag =
     (let ws = compress_time_windows (all_firings r df_ag) in
      \<lparr>alertname = a, total_time = total_time_of ws,
       num_firings = length (all_firings r df_ag), windows = ws\<rparr>)"

fun summaries :: "view \<Rightarrow> dataframe \<Rightarrow> string option list \<Rightarrow> error + alert_summary list" where
  "summaries self df [] = Inr []"
| "summaries self df (a # names) =
     (case alert_groups self df a of
        Inl e \<Rightarrow> Inl e
      | Inr df_ag \<Rightarrow>
          (case summaries self df names of
             Inl e \<Rightarrow> Inl e
           | Inr rest \<Rightarrow> Inr (summarise (resolution self) a df_ag # rest)))"

text \<open>
  The table before the loop: the firing rows, filtered by the labels of the view, without
  the ignored columns.
\<close>

definition filtered_table :: "view \<Rightarrow> dataframe \<Rightarrow> error + dataframe" where
  "filtered_table self df =
     (case select_eq df ''alertstate'' (Some ''firing'') of
        Inl e \<Rightarrow> Inl e
      | Inr df1 \<Rightarrow>
     (case filter_labels (case labels self of None \<Rightarrow> [] | Some items \<Rightarrow> items) df1 of
        Inl e \<Rightarrow> Inl e
      | Inr df2 \<Rightarrow>
          Inr (drop_ignore ([''__name__'', ''alertstate''] @ ignore_labels self) df2)))"

definition encounter_summaries :: "view \<Rightarrow> dataframe \<Rightarrow> error + alert_summary list" where
  "encounter_summaries self df0 =
     (case filtered_table self df0 of
        Inl e \<Rightarrow> Inl e
      | Inr df \<Rightarrow>
     (case column df ''alertname'' of
        Inl e \<Rightarrow> Inl e
      | Inr names \<Rightarrow> summaries self df (unique names)))"

definition template_vars ::
  "(int \<Rightarrow> int \<Rightarrow> 'f) \<Rightarrow> ('f \<Rightarrow> 'f) \<Rightarrow> view \<Rightarrow> dataframe \<Rightarrow> error + 'f template_vars_result" where
  "template_vars pct max0 self df0 =
     (case encounter_summaries self df0 of
        Inl e \<Rightarrow> Inl e
      | Inr summ \<Rightarrow>
          let time_ordered = sorted_reverse total_time summ in
          (case normalize_time_windows pct max0 (report self) (concat (map windows summ)) of
             Inl e \<Rightarrow> Inl e
           | Inr tline \<Rightarrow>
               Inr \<lparr>summary = time_ordered, timeline = tline,
                    show_timeline_var = show_timeline self\<rparr>))"

text \<open>The label groups of one alert name, read off the table the datasource returned.\<close>

definition alert_groups_of ::
  "view \<Rightarrow> dataframe \<Rightarrow> string option \<Rightarrow> error + (string list \<times> instant list) list" where
  "alert_groups_of self df0 a =
     (case filtered_table self df0 of
        Inl e \<Rightarrow> Inl e
      | Inr df \<Rightarrow> alert_groups self df a)"

subsection \<open>The two window algorithms in the words of the specification\<close>

text \<open>
  The construction as the specification words it: a running window \<open>[t1, t1 + r]\<close>; each
  subsequent timestamp either closes it and opens \<open>[t, t + r]\<close>, or moves its end to
  \<open>t + r\<close>.
\<close>

fun spec_running :: "duration \<Rightarrow> window \<Rightarrow> instant list \<Rightarrow> window list" where
  "spec_running r run [] = [run]"
| "spec_running r run (t # ts) =
     (if t > snd run then run # spec_running r (t, t + r) ts
      else spec_running r (fst run, t + r) ts)"

fun spec_compute_time_windows :: "duration \<Rightarrow> instant list \<Rightarrow> window list" where
  "spec_compute_time_windows r [] = []"
| "spec_compute_time_windows r (t1 # ts) = spec_running r (t1, t1 + r) ts"

text \<open>
  The merge as the specification words it, over windows already sorted: the next window
  is merged into the running one exactly when its start is strictly less than the running
  end; otherwise the running window is emitted and the next one becomes the running one.
\<close>

fun spec_merge :: "window \<Rightarrow> window list \<Rightarrow> window list" where
  "spec_merge run [] = [run]"
| "spec_merge run (w # ws) =
     (if fst w < snd run then spec_merge (fst run, max (snd run) (snd w)) ws
      else run # spec_merge w ws)"

definition spec_compress :: "window list \<Rightarrow> window list" where
  "spec_compress ws = (case sort_key fst ws of [] \<Rightarrow> [] | w # rest \<Rightarrow> spec_merge w rest)"

text \<open>The length of one unit of a resolution string, in nanoseconds.\<close>

definition unit_length :: "char \<Rightarrow> duration" where
  "unit_length u =
     (if u = CHR ''s'' then 1000000000
      else if u = CHR ''m'' then 60 * 1000000000
      else if u = CHR ''h'' then 3600 * 1000000000
      else if u = CHR ''d'' then 86400 * 1000000000
      else if u = CHR ''w'' then 7 * 86400 * 1000000000
      else 0)"

subsection \<open>Example tables\<close>

text \<open>
  The tables below are results of the query \<^verbatim>\<open>ALERTS\<close>: every row carries the labels
  \<^verbatim>\<open>__name__\<close>, \<^verbatim>\<open>alertname\<close> and \<^verbatim>\<open>alertstate\<close> and the labels of its series. Times are
  written in seconds. The view is the default one with resolution \<^verbatim>\<open>"10s"\<close>, on a report
  of 1000 seconds that starts at instant 0.
\<close>

definition sec :: "int \<Rightarrow> int" where
  "sec n = n * 1000000000"

definition alerts_columns :: "string list \<Rightarrow> string list" where
  "alerts_columns ls = [''time'', ''value'', ''__name__'', ''alertname'', ''alertstate''] @ ls"

definition alerts_row :: "int \<Rightarrow> string \<Rightarrow> string \<Rightarrow> (string \<times> string) list \<Rightarrow> sample" where
  "alerts_row t name state ls =
     \<lparr>time = sec t,
      cells = [(''__name__'', ''ALERTS''), (''alertname'', name), (''alertstate'', state)] @ ls\<rparr>"

definition example_view :: view where
  "example_view =
     \<lparr>resolution = sec 10, ignore_labels = [''instance'', ''job''], labels = None,
      show_timeline = True, report = \<lparr>start_date = 0, timedelta = sec 1000\<rparr>\<rparr>"

text \<open>
  What the datasource returns when the server has no series for the query:
  \<^verbatim>\<open>pd.DataFrame()\<close>.
\<close>

definition no_series_table :: dataframe where
  "no_series_table = \<lparr>columns = [], rows = []\<rparr>"

text \<open>One alert that is pending and never fires.\<close>

definition pending_table :: dataframe where
  "pending_table =
     \<lparr>columns = alerts_columns [''instance'', ''severity''],
      rows = [alerts_row 0 ''disk-full'' ''pending'' [(''instance'', ''a''), (''severity'', ''crit'')]]\<rparr>"

text \<open>
  The alert \<^verbatim>\<open>disk-full\<close> with two label groups, each firing in two distinct periods:
  the device \<^verbatim>\<open>sda\<close> at 0, 10 and 50 seconds, the device \<^verbatim>\<open>sdb\<close> at 10, 20 and 70.
\<close>

definition disk_full_table :: dataframe where
  "disk_full_table =
     \<lparr>columns = alerts_columns [''device'', ''instance''],
      rows =
        map (\<lambda>t. alerts_row t ''disk-full'' ''firing'' [(''device'', ''sda''), (''instance'', ''a'')])
          [0, 10, 50]
        @ map (\<lambda>t. alerts_row t ''disk-full'' ''firing'' [(''device'', ''sdb''), (''instance'', ''a'')])
          [10, 20, 70]\<rparr>"

text \<open>
  Two series of one alert that differ in the ignored label \<^verbatim>\<open>instance\<close> only: the first
  series of the result fired at 100 seconds, the second at 0 seconds.
\<close>

definition two_instances_table :: dataframe where
  "two_instances_table =
     \<lparr>columns = alerts_columns [''instance'', ''job'', ''severity''],
      rows =
        [alerts_row 100 ''A'' ''firing'' [(''instance'', ''a''), (''job'', ''node''), (''severity'', ''crit'')],
         alerts_row 0 ''A'' ''firing'' [(''instance'', ''b''), (''job'', ''node''), (''severity'', ''crit'')]]\<rparr>"

text \<open>
  Three alerts in the order A, B, C: A fires at 0, 10 and 20 seconds, B at 100, C at 200,
  210 and 220.
\<close>

definition three_alerts_table :: dataframe where
  "three_alerts_table =
     \<lparr>columns = alerts_columns [''severity''],
      rows =
        map (\<lambda>t. alerts_row t ''A'' ''firing'' [(''severity'', ''crit'')]) [0, 10, 20]
        @ [alerts_row 100 ''B'' ''firing'' [(''severity'', ''crit'')]]
        @ map (\<lambda>t. alerts_row t ''C'' ''firing'' [(''severity'', ''crit'')]) [200, 210, 220]\<rparr>"

text \<open>
  A stand-in for the two float parameters, to run the model on the examples: percentages
  in whole numbers, rounded down.
\<close>

definition pct_floor :: "int \<Rightarrow> int \<Rightarrow> int" where
  "pct_floor a td = (100 * a) div td"

definition max0_int :: "int \<Rightarrow> int" where
  "max0_int x = max 0 x"

text \<open>The result of the view on \<open>three_alerts_table\<close>, with the stand-ins.\<close>

definition three_alerts_result :: "int template_vars_result" where
  "three_alerts_result =
     \<lparr>summary =
        [\<lparr>alertname = Some ''A'', total_time = sec 30, num_firings = 1, windows = [(sec 0, sec 30)]\<rparr>,
         \<lparr>alertname = Some ''C'', total_time = sec 30, num_firings = 1, windows = [(sec 200, sec 230)]\<rparr>,
         \<lparr>alertname = Some ''B'', total_time = sec 10, num_firings = 1, windows = [(sec 100, sec 110)]\<rparr>],
      timeline = [(0, 3), (10, 1), (20, 3)],
      show_timeline_var = True\<rparr>"

section \<open>Resolution parsing\<close>

lemma unit_not_digit: "is_unit u \<Longrightarrow> \<not> is_digit u"
  by (auto simp: is_unit_def is_digit_def)

lemma resolution_match_prefix:
  assumes "ds \<noteq> []" "list_all is_digit ds" "is_unit u"
  shows "resolution_match (ds @ u # rest) = Some (ds, u)"
proof -
  have nd: "\<not> is_digit u" using assms(3) by (rule unit_not_digit)
  have all: "\<And>x. x \<in> set ds \<Longrightarrow> is_digit x" using assms(2) by (simp add: list_all_iff)
  have tw: "takeWhile is_digit (ds @ u # rest) = ds"
    using nd all by (simp add: takeWhile_append2)
  have dw: "dropWhile is_digit (ds @ u # rest) = u # rest"
    using nd all by (simp add: dropWhile_append2)
  show ?thesis using assms(1,3) by (simp add: resolution_match_def tw dw)
qed

lemma resolution_match_Some:
  assumes "resolution_match s = Some (ds, u)"
  shows "\<exists>rest. s = ds @ u # rest \<and> ds \<noteq> [] \<and> list_all is_digit ds \<and> is_unit u"
proof -
  from assms obtain rest where d: "dropWhile is_digit s = u # rest"
    and t: "takeWhile is_digit s = ds" and ne: "ds \<noteq> []" and un: "is_unit u"
    by (auto simp: resolution_match_def Let_def split: list.splits if_splits)
  have "s = takeWhile is_digit s @ dropWhile is_digit s" by simp
  then have "s = ds @ u # rest" using d t by simp
  moreover have "list_all is_digit ds"
    using t by (metis list_all_iff set_takeWhileD)
  ultimately show ?thesis using ne un by blast
qed

lemma resolution_match_None_iff:
  "resolution_match s = None \<longleftrightarrow>
   \<not> (\<exists>ds u rest. s = ds @ u # rest \<and> ds \<noteq> [] \<and> list_all is_digit ds \<and> is_unit u)"
proof
  assume n: "resolution_match s = None"
  show "\<not> (\<exists>ds u rest. s = ds @ u # rest \<and> ds \<noteq> [] \<and> list_all is_digit ds \<and> is_unit u)"
  proof
    assume "\<exists>ds u rest. s = ds @ u # rest \<and> ds \<noteq> [] \<and> list_all is_digit ds \<and> is_unit u"
    then obtain ds u rest where "s = ds @ u # rest" "ds \<noteq> []" "list_all is_digit ds" "is_unit u"
      by blast
    then have "resolution_match s = Some (ds, u)" by (simp add: resolution_match_prefix)
    with n show False by simp
  qed
next
  assume a: "\<not> (\<exists>ds u rest. s = ds @ u # rest \<and> ds \<noteq> [] \<and> list_all is_digit ds \<and> is_unit u)"
  show "resolution_match s = None"
  proof (cases "resolution_match s")
    case None
    then show ?thesis .
  next
    case (Some p)
    obtain ds u where "p = (ds, u)" by (cases p)
    with Some resolution_match_Some [of s ds u] a show ?thesis by blast
  qed
qed

lemma parse_resolution_ValueError_iff:
  "parse_resolution s = Inl (ValueError ''Invalid resolution format'') \<longleftrightarrow> resolution_match s = None"
  by (auto simp: parse_resolution_def datetime_timedelta_def split: option.splits prod.splits if_splits)

lemma keyword_length:
  "u \<in> set ''smhdw'' \<Longrightarrow>
   \<exists>kw. map_of mapping u = Some kw \<and> map_of timedelta_keywords kw = Some (unit_length u)"
  by (auto simp: mapping_def timedelta_keywords_def unit_length_def)

lemma foldl_digits_nonneg:
  "list_all is_digit ds \<Longrightarrow> 0 \<le> n \<Longrightarrow> 0 \<le> foldl (\<lambda>n c. 10 * n + digit_val c) n ds"
proof (induction ds arbitrary: n)
  case Nil
  then show ?case by simp
next
  case (Cons c cs)
  have "0 \<le> digit_val c" using Cons.prems(1) by (auto simp: is_digit_def digit_val_def)
  then have "0 \<le> 10 * n + digit_val c" using Cons.prems(2) by simp
  then show ?case using Cons by simp
qed

lemma int_of_digits_nonneg: "list_all is_digit ds \<Longrightarrow> 0 \<le> int_of_digits ds"
  by (simp add: int_of_digits_def foldl_digits_nonneg)

lemma int_of_digits_snoc: "int_of_digits (ds @ [c]) = 10 * int_of_digits ds + digit_val c"
  by (simp add: int_of_digits_def)

lemma parse_resolution_prefix_value:
  assumes "ds \<noteq> []" "list_all is_digit ds" "u \<in> set ''smhdw''"
    and "int_of_digits ds * unit_length u < 1000000000 * 86400000000000"
  shows "parse_resolution (ds @ u # rest) = Inr (int_of_digits ds * unit_length u)"
proof -
  have un: "is_unit u" using assms(3) by (auto simp: is_unit_def)
  obtain kw where kw: "map_of mapping u = Some kw" "map_of timedelta_keywords kw = Some (unit_length u)"
    using keyword_length [OF assms(3)] by blast
  have "0 \<le> unit_length u" by (simp add: unit_length_def)
  then have nn: "0 \<le> int_of_digits ds * unit_length u"
    using int_of_digits_nonneg [OF assms(2)] by simp
  have "(int_of_digits ds * unit_length u) div 86400000000000 < 1000000000"
    using assms(4) by linarith
  moreover have "0 \<le> (int_of_digits ds * unit_length u) div 86400000000000"
    using nn by (simp add: pos_imp_zdiv_nonneg_iff)
  ultimately have "\<bar>(int_of_digits ds * unit_length u) div 86400000000000\<bar> \<le> 999999999"
    by linarith
  then show ?thesis
    using kw by (simp add: parse_resolution_def resolution_match_prefix [OF assms(1,2) un]
        datetime_timedelta_def)
qed

text \<open>A parsed resolution is never negative.\<close>

lemma parse_resolution_nonneg: "parse_resolution s = Inr r \<Longrightarrow> 0 \<le> r"
proof -
  assume a: "parse_resolution s = Inr r"
  then obtain ds u where m: "resolution_match s = Some (ds, u)"
    by (auto simp: parse_resolution_def split: option.splits)
  then have d: "list_all is_digit ds" using resolution_match_Some by blast
  from a m obtain kw len where "map_of timedelta_keywords kw = Some len" "r = int_of_digits ds * len"
    by (auto simp: parse_resolution_def datetime_timedelta_def split: option.splits if_splits)
  moreover have "0 \<le> len" using calculation(1) by (auto simp: timedelta_keywords_def split: if_splits)
  ultimately show ?thesis using int_of_digits_nonneg [OF d] by simp
qed

text \<open>
  The unit \<^verbatim>\<open>y\<close> is in the pattern and in \<^verbatim>\<open>mapping\<close>, but \<^verbatim>\<open>timedelta\<close> has no keyword
  \<^verbatim>\<open>years\<close>: every resolution in years raises \<^verbatim>\<open>TypeError\<close>.
\<close>

lemma parse_resolution_years:
  assumes "ds \<noteq> []" "list_all is_digit ds"
  shows "parse_resolution (ds @ CHR ''y'' # rest) = Inl TypeError"
proof -
  have "is_unit CHR ''y''" by (simp add: is_unit_def)
  from resolution_match_prefix [OF assms this] show ?thesis
    by (simp add: parse_resolution_def mapping_def datetime_timedelta_def timedelta_keywords_def)
qed

text \<open>
  C2, as stated, fails: the claim has every string with characters after the unit rejected
  with the invalid-resolution error, and \<^verbatim>\<open>_parse_resolution\<close> returns 15 minutes for
  \<^verbatim>\<open>"15mxyz"\<close>.
\<close>

theorem parse_resolution_trailing_counterexample:
  "parse_resolution ''15mxyz'' = Inr (15 * unit_length CHR ''m'')"
  by code_simp

text \<open>
  C2, amended. \<^verbatim>\<open>_parse_resolution\<close> fails with the invalid-resolution error exactly
  when the string does not begin with an integer followed by a unit of \<open>s, m, h, d, w, y\<close>;
  what follows the unit is not looked at. When the string begins with an integer and a
  unit of \<open>s, m, h, d, w\<close>, and the integer times the unit is below 1000000000 days, the
  result is the duration of the integer times the unit.
\<close>

theorem parse_resolution_matches_prefix:
  "(parse_resolution s = Inl (ValueError ''Invalid resolution format'') \<longleftrightarrow>
      \<not> (\<exists>ds u rest. s = ds @ u # rest \<and> ds \<noteq> [] \<and> list_all is_digit ds \<and> is_unit u))
   \<and> (ds \<noteq> [] \<and> list_all is_digit ds \<and> u \<in> set ''smhdw''
        \<and> int_of_digits ds * unit_length u < 1000000000 * 86400000000000 \<longrightarrow>
      parse_resolution (ds @ u # rest) = Inr (int_of_digits ds * unit_length u))"
proof (intro conjI impI)
  show "parse_resolution s = Inl (ValueError ''Invalid resolution format'') \<longleftrightarrow>
      \<not> (\<exists>ds u rest. s = ds @ u # rest \<and> ds \<noteq> [] \<and> list_all is_digit ds \<and> is_unit u)"
    by (simp only: parse_resolution_ValueError_iff resolution_match_None_iff)
next
  assume "ds \<noteq> [] \<and> list_all is_digit ds \<and> u \<in> set ''smhdw''
        \<and> int_of_digits ds * unit_length u < 1000000000 * 86400000000000"
  then show "parse_resolution (ds @ u # rest) = Inr (int_of_digits ds * unit_length u)"
    by (elim conjE) (rule parse_resolution_prefix_value)
qed

theorem parse_resolution_matches_prefix_witness:
  "parse_resolution ''x15m'' = Inl (ValueError ''Invalid resolution format'')
   \<and> parse_resolution ''2h30m'' = Inr (2 * 3600 * 1000000000)
   \<and> int_of_digits ''2'' * unit_length CHR ''h'' = 2 * 3600 * 1000000000"
proof -
  have v: "int_of_digits ''2'' * unit_length CHR ''h'' = 2 * 3600 * 1000000000"
    by code_simp
  have h: "''2'' \<noteq> [] \<and> list_all is_digit ''2'' \<and> CHR ''h'' \<in> set ''smhdw''
      \<and> int_of_digits ''2'' * unit_length CHR ''h'' < 1000000000 * 86400000000000"
    unfolding v by (simp add: is_digit_def)
  have "parse_resolution (''2'' @ CHR ''h'' # ''30m'') = Inr (int_of_digits ''2'' * unit_length CHR ''h'')"
    by (rule mp [OF conjunct2 [OF parse_resolution_matches_prefix [of "''x15m''" "''2''" "CHR ''h''" "''30m''"]] h])
  moreover have "parse_resolution ''x15m'' = Inl (ValueError ''Invalid resolution format'')"
    by code_simp
  ultimately show ?thesis using v by simp
qed

section \<open>Window construction\<close>

lemma windows_loop_spec:
  "windows_loop r closed cur ts = closed @ spec_running r cur ts"
  by (induction ts arbitrary: closed cur) simp_all

text \<open>
  C3. For a resolution that is not negative, as every parsed resolution is,
  \<^verbatim>\<open>_compute_time_windows\<close> returns the empty list on the empty sequence and otherwise
  the windows of the running-window construction of the specification; a single timestamp
  \<open>t\<close> gives \<open>[[t, t + r]]\<close>, and \<open>[0, 5, 20]\<close> with resolution 10 gives
  \<open>[[0, 15], [20, 30]]\<close>. The equality needs no order on the timestamps, so it holds for
  every ascending sequence.
\<close>

theorem compute_time_windows_refines_spec:
  assumes "0 \<le> r"
  shows "compute_time_windows r [] = []
       \<and> compute_time_windows r ts = spec_compute_time_windows r ts
       \<and> compute_time_windows r [t] = [(t, t + r)]
       \<and> compute_time_windows 10 [0, 5, 20] = [(0, 15), (20, 30)]"
proof -
  have "compute_time_windows r ts = spec_compute_time_windows r ts"
    using assms by (cases ts) (simp_all add: compute_time_windows_def windows_loop_spec)
  moreover have "compute_time_windows r [t] = [(t, t + r)]"
    using assms by (simp add: compute_time_windows_def)
  moreover have "compute_time_windows 10 [0, 5, 20] = [(0, 15), (20, 30)]"
    by (simp add: compute_time_windows_def)
  ultimately show ?thesis by (simp add: compute_time_windows_def)
qed

theorem compute_time_windows_refines_spec_witness:
  "(0::int) \<le> 10
   \<and> compute_time_windows 10 [0, 5, 20] = spec_compute_time_windows 10 [0, 5, 20]
   \<and> spec_compute_time_windows 10 [0, 5, 20] = [(0, 15), (20, 30)]
   \<and> compute_time_windows 10 [7] = [(7, 17)]"
proof -
  have h: "(0::int) \<le> 10" by simp
  show ?thesis using compute_time_windows_refines_spec [OF h, of "[0, 5, 20]" 7] by simp
qed

section \<open>Window compression\<close>

lemma compress_loop_spec:
  "compress_loop closed cur ws = closed @ spec_merge cur ws"
  by (induction ws arbitrary: closed cur) auto

text \<open>
  C4. \<^verbatim>\<open>_compress_time_windows\<close> sorts the windows by start, ascending, and then merges
  a window into the running window exactly when its start is strictly less than the
  running end, the running end becoming the larger of the two ends, and starts a new
  running window otherwise: it is the merge of the specification. The touching windows
  \<open>[[0, 10], [10, 20]]\<close> stay two windows; the overlapping windows \<open>[[0, 10], [5, 20]]\<close>
  become \<open>[[0, 20]]\<close>.
\<close>

theorem compress_time_windows_refines_spec:
  "compress_time_windows ws = spec_compress ws
   \<and> sorted (map fst (sort_key fst ws)) \<and> mset (sort_key fst ws) = mset ws
   \<and> compress_time_windows [(0, 10), (10, 20)] = [(0, 10), (10, 20)]
   \<and> compress_time_windows [(0, 10), (5, 20)] = [(0, 20)]"
  by (simp add: compress_time_windows_def spec_compress_def compress_loop_spec split: list.split)

theorem compress_time_windows_refines_spec_witness:
  "compress_time_windows [(5, 20), (30, 31), (0, 10)] = spec_compress [(5, 20), (30, 31), (0, 10)]
   \<and> spec_compress [(5, 20), (30, 31), (0, 10)] = [(0, 20), (30, 31)]"
  using compress_time_windows_refines_spec [of "[(5, 20), (30, 31), (0, 10)]"]
  by (simp add: spec_compress_def)

text \<open>
  Whatever the windows, the compressed windows are in ascending order of their starts and
  each one starts no earlier than the one before it ends.
\<close>

lemma spec_merge_ordered:
  "sorted (map fst (run # ws)) \<Longrightarrow>
     sorted (map fst (spec_merge run ws))
   \<and> successively (\<lambda>a b. snd a \<le> fst b) (spec_merge run ws)
   \<and> fst (hd (spec_merge run ws)) = fst run \<and> spec_merge run ws \<noteq> []"
proof (induction ws arbitrary: run)
  case Nil
  then show ?case by simp
next
  case (Cons w ws)
  show ?case
  proof (cases "fst w < snd run")
    case True
    have "sorted (map fst ((fst run, max (snd run) (snd w)) # ws))"
      using Cons.prems by auto
    from Cons.IH [OF this] True show ?thesis by simp
  next
    case False
    have s: "sorted (map fst (w # ws))" using Cons.prems by simp
    from Cons.IH [OF s] have ih: "sorted (map fst (spec_merge w ws))"
      "successively (\<lambda>a b. snd a \<le> fst b) (spec_merge w ws)"
      "fst (hd (spec_merge w ws)) = fst w" "spec_merge w ws \<noteq> []" by simp_all
    obtain x xs where x: "spec_merge w ws = x # xs" using ih(4) by (cases "spec_merge w ws") auto
    have "fst run \<le> fst w" using Cons.prems by simp
    with ih x False show ?thesis by (auto simp: successively_Cons)
  qed
qed

lemma compress_ordered:
  "sorted (map fst (compress_time_windows ws))
   \<and> successively (\<lambda>a b. snd a \<le> fst b) (compress_time_windows ws)"
proof (cases "sort_key fst ws")
  case Nil
  then show ?thesis by (simp add: compress_time_windows_def)
next
  case (Cons w rest)
  have "sorted (map fst (w # rest))" using sorted_sort_key [of fst ws] Cons by simp
  from spec_merge_ordered [OF this] Cons show ?thesis
    by (simp add: compress_time_windows_def compress_loop_spec)
qed

text \<open>Compression keeps \<open>start \<le> end\<close> when every window it is given has it.\<close>

lemma spec_merge_valid:
  "fst run \<le> snd run \<Longrightarrow> list_all (\<lambda>w. fst w \<le> snd w) ws \<Longrightarrow>
   list_all (\<lambda>w. fst w \<le> snd w) (spec_merge run ws)"
  by (induction ws arbitrary: run) auto

lemma compress_valid:
  assumes "list_all (\<lambda>w. fst w \<le> snd w) ws"
  shows "list_all (\<lambda>w. fst w \<le> snd w) (compress_time_windows ws)"
proof (cases "sort_key fst ws")
  case Nil
  then show ?thesis by (simp add: compress_time_windows_def)
next
  case (Cons w rest)
  have "list_all (\<lambda>w. fst w \<le> snd w) (sort_key fst ws)"
    using assms by (simp add: list_all_iff)
  with Cons have "fst w \<le> snd w" "list_all (\<lambda>w. fst w \<le> snd w) rest" by simp_all
  from spec_merge_valid [OF this] Cons show ?thesis
    by (simp add: compress_time_windows_def compress_loop_spec)
qed

text \<open>
  Window construction gives \<open>start \<le> end\<close> when the timestamps are ascending and the
  resolution is not negative.
\<close>

lemma spec_running_valid:
  "0 \<le> r \<Longrightarrow> fst run \<le> snd run \<Longrightarrow> sorted (fst run # ts) \<Longrightarrow>
   list_all (\<lambda>w. fst w \<le> snd w) (spec_running r run ts)"
proof (induction ts arbitrary: run)
  case Nil
  then show ?case by simp
next
  case (Cons t ts)
  then show ?case by (auto intro!: Cons.IH)
qed

lemma compute_valid:
  "0 \<le> r \<Longrightarrow> sorted ts \<Longrightarrow> list_all (\<lambda>w. fst w \<le> snd w) (compute_time_windows r ts)"
  by (cases ts) (auto simp: compute_time_windows_def windows_loop_spec intro!: spec_running_valid)

section \<open>The summaries of a table\<close>

lemma fold_total:
  fixes ws :: "window list"
  shows "fold (\<lambda>x agg. agg + (snd x - fst x)) ws a = a + (\<Sum>w\<leftarrow>ws. snd w - fst w)"
  by (induction ws arbitrary: a) simp_all

lemma total_time_of_sum: "total_time_of ws = (\<Sum>w\<leftarrow>ws. snd w - fst w)"
  by (simp add: total_time_of_def fold_total)

lemma summarise_simps:
  "alertname (summarise r a g) = a"
  "windows (summarise r a g) = compress_time_windows (all_firings r g)"
  "total_time (summarise r a g) = total_time_of (compress_time_windows (all_firings r g))"
  "num_firings (summarise r a g) = length (all_firings r g)"
  by (simp_all add: summarise_def Let_def)

lemma length_all_firings:
  "length (all_firings r g) = (\<Sum>(k, ts)\<leftarrow>g. length (compute_time_windows r ts))"
  by (simp add: all_firings_def length_concat comp_def case_prod_unfold)

lemma summaries_shape:
  "summaries self df names = Inr ss \<Longrightarrow>
   list_all2 (\<lambda>a s. \<exists>g. alert_groups self df a = Inr g \<and> s = summarise (resolution self) a g) names ss"
  by (induction names arbitrary: ss) (auto split: sum.splits)

lemma encounter_shape:
  assumes "encounter_summaries self df0 = Inr enc"
  shows "\<exists>df names. filtered_table self df0 = Inr df \<and> column df ''alertname'' = Inr names
           \<and> list_all2 (\<lambda>a s. \<exists>g. alert_groups self df a = Inr g
                                  \<and> s = summarise (resolution self) a g) (unique names) enc"
  using assms summaries_shape
  by (fastforce simp: encounter_summaries_def split: sum.splits)

lemma list_all2_right:
  "list_all2 P xs ys \<Longrightarrow> (\<And>x y. P x y \<Longrightarrow> Q y) \<Longrightarrow> list_all Q ys"
  by (induction rule: list_all2_induct) auto

lemma encounter_each:
  assumes "encounter_summaries self df0 = Inr enc"
  shows "list_all (\<lambda>s. \<exists>g. alert_groups_of self df0 (alertname s) = Inr g
                          \<and> windows s = compress_time_windows (all_firings (resolution self) g)
                          \<and> total_time s = total_time_of (windows s)
                          \<and> num_firings s = length (all_firings (resolution self) g)) enc"
proof -
  from encounter_shape [OF assms] obtain df names where
    df: "filtered_table self df0 = Inr df" and
    l: "list_all2 (\<lambda>a s. \<exists>g. alert_groups self df a = Inr g
                                  \<and> s = summarise (resolution self) a g) (unique names) enc"
    by blast
  show ?thesis
    using l by (rule list_all2_right) (auto simp: summarise_simps alert_groups_of_def df)
qed

lemma list_all_mono': "list_all P xs \<Longrightarrow> (\<And>x. P x \<Longrightarrow> Q x) \<Longrightarrow> list_all Q xs"
  by (induction xs) auto

lemma template_vars_shape:
  assumes "template_vars pct max0 self df0 = Inr out"
  shows "\<exists>enc. encounter_summaries self df0 = Inr enc
           \<and> summary out = sorted_reverse total_time enc
           \<and> normalize_time_windows pct max0 (report self) (concat (map windows enc)) = Inr (timeline out)
           \<and> show_timeline_var out = show_timeline self"
  using assms by (auto simp: template_vars_def Let_def split: sum.splits)

text \<open>\<^verbatim>\<open>unique\<close> lists each value once, at the place of its first occurrence.\<close>

lemma unique_from_filter:
  "unique_from seen xs = filter (\<lambda>y. y \<notin> set seen) (unique_from [] xs)"
proof (induction xs arbitrary: seen)
  case Nil
  then show ?case by simp
next
  case (Cons x xs)
  have a: "unique_from [x] xs = filter (\<lambda>y. y \<noteq> x) (unique_from [] xs)"
    using Cons.IH [of "[x]"] by simp
  show ?case
  proof (cases "x \<in> set seen")
    case True
    then have "filter (\<lambda>y. y \<notin> set seen) (filter (\<lambda>y. y \<noteq> x) (unique_from [] xs))
             = filter (\<lambda>y. y \<notin> set seen) (unique_from [] xs)"
      by (auto intro: filter_cong)
    with True Cons.IH [of seen] a show ?thesis by simp
  next
    case False
    have "filter (\<lambda>y. y \<notin> set (x # seen)) (unique_from [] xs)
        = filter (\<lambda>y. y \<notin> set seen) (filter (\<lambda>y. y \<noteq> x) (unique_from [] xs))"
      by (auto intro: filter_cong)
    with False Cons.IH [of "x # seen"] a show ?thesis by simp
  qed
qed

lemma unique_Nil: "unique [] = []"
  by (simp add: unique_def)

lemma unique_Cons: "unique (x # xs) = x # filter (\<lambda>y. y \<noteq> x) (unique xs)"
  using unique_from_filter [of "[x]" xs] by (simp add: unique_def)

lemma set_unique: "set (unique xs) = set xs"
  by (induction xs) (auto simp: unique_Nil unique_Cons)

lemma distinct_unique: "distinct (unique xs)"
  by (induction xs) (auto simp: unique_Nil unique_Cons)

lemma encounter_names:
  assumes "encounter_summaries self df0 = Inr enc"
  shows "\<exists>df names. filtered_table self df0 = Inr df \<and> column df ''alertname'' = Inr names
           \<and> map alertname enc = unique names"
proof -
  from encounter_shape [OF assms] obtain df names where
    df: "filtered_table self df0 = Inr df" "column df ''alertname'' = Inr names" and
    l: "list_all2 (\<lambda>a s. \<exists>g. alert_groups self df a = Inr g
                                  \<and> s = summarise (resolution self) a g) (unique names) enc"
    by blast
  from l have "list_all2 (\<lambda>a s. alertname s = a) (unique names) enc"
    by (rule list_all2_mono) (auto simp: summarise_simps)
  then have "map alertname enc = unique names"
    by (induction rule: list_all2_induct) auto
  with df show ?thesis by blast
qed

text \<open>\<^verbatim>\<open>sorted(..., reverse=True)\<close> sorts in descending order and is stable.\<close>

lemma sorted_reverse_descending: "sorted (rev (map k (sorted_reverse k xs)))"
  by (simp add: sorted_reverse_def rev_map)

lemma sorted_reverse_stable:
  "filter (\<lambda>x. k x = v) (sorted_reverse k xs) = filter (\<lambda>x. k x = v) xs"
  by (simp add: sorted_reverse_def rev_filter [symmetric] sort_key_stable)

lemma sorted_reverse_mset: "mset (sorted_reverse k xs) = mset xs"
  by (simp add: sorted_reverse_def)

section \<open>Total firing time\<close>

text \<open>
  C8. The \<open>total_time\<close> of every summary is the sum of \<open>end - start\<close> over the compressed
  windows of that summary, as \<^verbatim>\<open>_total_time\<close> is on every list of windows; the windows
  \<open>[[0, 10], [20, 25]]\<close> give 15 and the empty list gives the zero duration.
\<close>

theorem total_time_sums_windows:
  assumes "encounter_summaries self df0 = Inr enc"
  shows "list_all (\<lambda>s. total_time s = (\<Sum>w\<leftarrow>windows s. snd w - fst w)) enc
       \<and> total_time_of ws = (\<Sum>w\<leftarrow>ws. snd w - fst w)
       \<and> total_time_of [(0, 10), (20, 25)] = 15
       \<and> total_time_of [] = 0"
proof -
  have "list_all (\<lambda>s. total_time s = (\<Sum>w\<leftarrow>windows s. snd w - fst w)) enc"
    using encounter_each [OF assms]
    by (rule list_all_mono') (auto simp: total_time_of_sum)
  then show ?thesis by (simp add: total_time_of_sum)
qed

theorem total_time_sums_windows_witness:
  "encounter_summaries example_view disk_full_table =
     Inr [\<lparr>alertname = Some ''disk-full'', total_time = sec 50, num_firings = 4,
           windows = [(sec 0, sec 30), (sec 50, sec 60), (sec 70, sec 80)]\<rparr>]
   \<and> sec 50 = (\<Sum>w\<leftarrow>[(sec 0, sec 30), (sec 50, sec 60), (sec 70, sec 80)]. snd w - fst w)
   \<and> total_time_of [(5, 7)] = 2"
proof -
  have h: "encounter_summaries example_view disk_full_table =
     Inr [\<lparr>alertname = Some ''disk-full'', total_time = sec 50, num_firings = 4,
           windows = [(sec 0, sec 30), (sec 50, sec 60), (sec 70, sec 80)]\<rparr>]"
    by code_simp
  show ?thesis using total_time_sums_windows [OF h, of "[(5, 7)]"] h by simp
qed

section \<open>The number of firings\<close>

text \<open>
  C1, as stated, fails. In the table of \<^verbatim>\<open>disk-full\<close> six timestamps, three in each of
  the two label groups, contribute to the windows of the alert, and \<open>num_firings\<close> is 4:
  \<^verbatim>\<open>len(all_firings)\<close> counts the windows built for the label groups, two for each group
  here, not the timestamps.
\<close>

theorem num_firings_counterexample:
  "encounter_summaries example_view disk_full_table =
     Inr [\<lparr>alertname = Some ''disk-full'', total_time = sec 50, num_firings = 4,
           windows = [(sec 0, sec 30), (sec 50, sec 60), (sec 70, sec 80)]\<rparr>]
   \<and> alert_groups_of example_view disk_full_table (Some ''disk-full'') =
     Inr [([''sda''], [sec 0, sec 10, sec 50]), ([''sdb''], [sec 10, sec 20, sec 70])]
   \<and> length [sec 0, sec 10, sec 50] + length [sec 10, sec 20, sec 70] = (6::nat)"
  by code_simp

text \<open>
  C1, amended. For every table, the \<open>num_firings\<close> of each summary is the number of
  windows constructed for the label groups of its alert name, before compression, summed
  over the label groups.
\<close>

theorem num_firings_counts_windows:
  assumes "encounter_summaries self df0 = Inr enc"
  shows "list_all (\<lambda>s. \<exists>g. alert_groups_of self df0 (alertname s) = Inr g
           \<and> num_firings s = (\<Sum>(k, ts)\<leftarrow>g. length (compute_time_windows (resolution self) ts))) enc"
  using encounter_each [OF assms]
  by (rule list_all_mono') (auto simp: length_all_firings)

theorem num_firings_counts_windows_witness:
  "encounter_summaries example_view three_alerts_table =
     Inr [\<lparr>alertname = Some ''A'', total_time = sec 30, num_firings = 1, windows = [(sec 0, sec 30)]\<rparr>,
          \<lparr>alertname = Some ''B'', total_time = sec 10, num_firings = 1, windows = [(sec 100, sec 110)]\<rparr>,
          \<lparr>alertname = Some ''C'', total_time = sec 30, num_firings = 1, windows = [(sec 200, sec 230)]\<rparr>]
   \<and> alert_groups_of example_view three_alerts_table (Some ''A'') = Inr [([''crit''], [sec 0, sec 10, sec 20])]
   \<and> (\<exists>g. alert_groups_of example_view three_alerts_table (Some ''A'') = Inr g
         \<and> (1::nat) = (\<Sum>(k, ts)\<leftarrow>g. length (compute_time_windows (resolution example_view) ts)))"
proof -
  have h: "encounter_summaries example_view three_alerts_table =
     Inr [\<lparr>alertname = Some ''A'', total_time = sec 30, num_firings = 1, windows = [(sec 0, sec 30)]\<rparr>,
          \<lparr>alertname = Some ''B'', total_time = sec 10, num_firings = 1, windows = [(sec 100, sec 110)]\<rparr>,
          \<lparr>alertname = Some ''C'', total_time = sec 30, num_firings = 1, windows = [(sec 200, sec 230)]\<rparr>]"
    by code_simp
  have g: "alert_groups_of example_view three_alerts_table (Some ''A'') = Inr [([''crit''], [sec 0, sec 10, sec 20])]"
    by code_simp
  show ?thesis using num_firings_counts_windows [OF h] h g by simp
qed

section \<open>Ranking\<close>

text \<open>
  C6. The displayed summary list holds the summaries of the table in descending order of
  \<open>total_time\<close>, and the summaries of one \<open>total_time\<close> stand in it in the order in which
  they were built: summaries with the totals 15, 5, 15, built in the order A, B, C, are
  displayed in the order A, C, B.
\<close>

theorem summary_ranked_by_total_time:
  assumes "template_vars pct max0 self df0 = Inr out"
  shows "(\<exists>enc. encounter_summaries self df0 = Inr enc
            \<and> sorted (rev (map total_time (summary out)))
            \<and> mset (summary out) = mset enc
            \<and> (\<forall>t. filter (\<lambda>s. total_time s = t) (summary out) = filter (\<lambda>s. total_time s = t) enc))
       \<and> map alertname (sorted_reverse total_time
            [\<lparr>alertname = Some ''A'', total_time = 15, num_firings = 1, windows = [(0, 15)]\<rparr>,
             \<lparr>alertname = Some ''B'', total_time = 5, num_firings = 1, windows = [(20, 25)]\<rparr>,
             \<lparr>alertname = Some ''C'', total_time = 15, num_firings = 1, windows = [(30, 45)]\<rparr>])
          = [Some ''A'', Some ''C'', Some ''B'']"
proof -
  from template_vars_shape [OF assms] obtain enc where
    enc: "encounter_summaries self df0 = Inr enc" "summary out = sorted_reverse total_time enc"
    by blast
  have "sorted (rev (map total_time (summary out)))"
    by (simp only: enc(2) sorted_reverse_descending)
  moreover have "mset (summary out) = mset enc"
    by (simp only: enc(2) sorted_reverse_mset)
  moreover have "\<forall>t. filter (\<lambda>s. total_time s = t) (summary out) = filter (\<lambda>s. total_time s = t) enc"
    by (simp only: enc(2) sorted_reverse_stable) simp
  moreover have "map alertname (sorted_reverse total_time
            [\<lparr>alertname = Some ''A'', total_time = 15, num_firings = 1, windows = [(0, 15)]\<rparr>,
             \<lparr>alertname = Some ''B'', total_time = 5, num_firings = 1, windows = [(20, 25)]\<rparr>,
             \<lparr>alertname = Some ''C'', total_time = 15, num_firings = 1, windows = [(30, 45)]\<rparr>])
          = [Some ''A'', Some ''C'', Some ''B'']"
    by (simp add: sorted_reverse_def)
  ultimately show ?thesis using enc(1) by blast
qed

lemma three_alerts_run:
  "template_vars pct_floor max0_int example_view three_alerts_table = Inr three_alerts_result"
  by code_simp

theorem summary_ranked_by_total_time_witness:
  "template_vars pct_floor max0_int example_view three_alerts_table = Inr three_alerts_result
   \<and> map alertname (summary three_alerts_result) = [Some ''A'', Some ''C'', Some ''B'']
   \<and> map total_time (summary three_alerts_result) = [sec 30, sec 30, sec 10]
   \<and> sorted (rev (map total_time (summary three_alerts_result)))"
  using summary_ranked_by_total_time [OF three_alerts_run] three_alerts_run
  by (auto simp: three_alerts_result_def)

section \<open>The windows of a summary\<close>

text \<open>
  For every table, the windows of each summary are in ascending order of their starts and
  each one starts no earlier than the one before it ends.
\<close>

lemma summary_windows_ordered:
  assumes "encounter_summaries self df0 = Inr enc"
  shows "list_all (\<lambda>s. sorted (map fst (windows s))
                      \<and> successively (\<lambda>a b. snd a \<le> fst b) (windows s)) enc"
  using encounter_each [OF assms]
  by (rule list_all_mono') (auto simp: compress_ordered)

text \<open>
  When the resolution is not negative and the timestamps of every label group stand in
  the table in ascending order, every window of every summary has \<open>start \<le> end\<close>.
\<close>

lemma all_firings_valid:
  assumes "0 \<le> r" "list_all (\<lambda>(k, ts). sorted ts) g"
  shows "list_all (\<lambda>w. fst w \<le> snd w) (all_firings r g)"
  using assms(2)
  by (induction g) (auto simp: all_firings_def compute_valid [OF assms(1)])

lemma summary_windows_valid:
  assumes "encounter_summaries self df0 = Inr enc" "0 \<le> resolution self"
    and "list_all (\<lambda>s. \<forall>g. alert_groups_of self df0 (alertname s) = Inr g
                          \<longrightarrow> list_all (\<lambda>(k, ts). sorted ts) g) enc"
  shows "list_all (\<lambda>s. list_all (\<lambda>w. fst w \<le> snd w) (windows s)) enc"
proof -
  have "list_all (\<lambda>s. (\<exists>g. alert_groups_of self df0 (alertname s) = Inr g
                          \<and> windows s = compress_time_windows (all_firings (resolution self) g)
                          \<and> total_time s = total_time_of (windows s)
                          \<and> num_firings s = length (all_firings (resolution self) g))
                    \<and> (\<forall>g. alert_groups_of self df0 (alertname s) = Inr g
                          \<longrightarrow> list_all (\<lambda>(k, ts). sorted ts) g)) enc"
    using encounter_each [OF assms(1)] assms(3) by (simp add: list_all_iff)
  then show ?thesis
    by (rule list_all_mono') (auto intro!: compress_valid all_firings_valid [OF assms(2)])
qed

text \<open>
  C7. The claim has every window of a summary satisfy \<open>start \<le> end\<close>. In the table
  \<open>two_instances_table\<close> the two series of the alert fall into one label group, whose
  timestamps stand in the order of the rows: 100 seconds, then 0 seconds.
  \<^verbatim>\<open>_compute_time_windows\<close> moves the end of the window \<open>[100, 110]\<close> to \<open>0 + 10\<close>, and the
  summary holds the window \<open>[100, 10]\<close> and the total time of -90 seconds.
\<close>

theorem unsorted_group_inverts_window:
  "encounter_summaries example_view two_instances_table =
     Inr [\<lparr>alertname = Some ''A'', total_time = - sec 90, num_firings = 1,
           windows = [(sec 100, sec 10)]\<rparr>]
   \<and> alert_groups_of example_view two_instances_table (Some ''A'') =
     Inr [([''crit''], [sec 100, sec 0])]
   \<and> compute_time_windows (sec 10) [sec 100, sec 0] = [(sec 100, sec 10)]
   \<and> \<not> sec 100 \<le> sec 10"
  by code_simp

section \<open>A table without firing samples\<close>

lemma select_eq_no_rows:
  "rows df = [] \<Longrightarrow> c \<in> set (columns df) \<Longrightarrow> select_eq df c v = Inr df"
  by (simp add: select_eq_def)

lemma filter_labels_no_rows:
  "rows df = [] \<Longrightarrow> list_all (\<lambda>kv. fst kv \<in> set (columns df)) items \<Longrightarrow>
   filter_labels items df = Inr df"
  by (induction items) (auto simp: select_eq_no_rows)

text \<open>
  A table that has the columns the view reads and no firing row gives the empty summary
  and the empty timeline.
\<close>

lemma no_firing_row_empty_result:
  assumes "''alertstate'' \<in> set (columns df0)" "''alertname'' \<in> set (columns df0)"
    and "''alertname'' \<notin> set (ignore_labels self)"
    and "list_all (\<lambda>kv. fst kv \<in> set (columns df0)) (case labels self of None \<Rightarrow> [] | Some items \<Rightarrow> items)"
    and "\<not> list_ex (\<lambda>row. cell row ''alertstate'' = Some ''firing'') (rows df0)"
  shows "template_vars pct max0 self df0 =
           Inr \<lparr>summary = [], timeline = [], show_timeline_var = show_timeline self\<rparr>"
proof -
  define df1 where "df1 = df0\<lparr>rows := []\<rparr>"
  have "filter (\<lambda>row. cell row ''alertstate'' = Some ''firing'') (rows df0) = []"
    using assms(5) by (simp add: list_ex_iff filter_empty_conv)
  then have s: "select_eq df0 ''alertstate'' (Some ''firing'') = Inr df1"
    using assms(1) by (simp add: select_eq_def df1_def)
  have f: "filter_labels (case labels self of None \<Rightarrow> [] | Some items \<Rightarrow> items) df1 = Inr df1"
    using assms(4) by (intro filter_labels_no_rows) (simp_all add: df1_def)
  have t: "filtered_table self df0 =
      Inr (drop_ignore ([''__name__'', ''alertstate''] @ ignore_labels self) df1)"
    by (simp add: filtered_table_def s f)
  have c: "column (drop_ignore ([''__name__'', ''alertstate''] @ ignore_labels self) df1) ''alertname'' = Inr []"
    using assms(2,3) by (simp add: column_def drop_ignore_def df1_def)
  have "encounter_summaries self df0 = Inr []"
    using t c by (simp add: encounter_summaries_def unique_def)
  then show ?thesis
    by (simp add: template_vars_def normalize_time_windows_def sorted_reverse_def)
qed

lemma pending_table_empty_result:
  "template_vars pct_floor max0_int example_view pending_table =
     Inr \<lparr>summary = [], timeline = [], show_timeline_var = True\<rparr>"
  by code_simp

text \<open>
  C9. The claim has the view return the empty summary and the empty timeline for every
  table without firing samples, the table with no rows at all included. The datasource
  returns \<^verbatim>\<open>pd.DataFrame()\<close>, a table with no rows and no columns, when the server has
  no series; on it \<^verbatim>\<open>df["alertstate"]\<close> raises \<^verbatim>\<open>KeyError\<close> and the view returns nothing.
\<close>

theorem no_series_table_raises:
  "template_vars pct max0 self no_series_table = Inl (KeyError ''alertstate'')"
  by (simp add: template_vars_def encounter_summaries_def filtered_table_def select_eq_def
      no_series_table_def)

section \<open>The timeline\<close>

lemma normalize_time_windows_entries:
  "timedelta rep \<noteq> 0 \<or> ws = [] \<Longrightarrow>
   normalize_time_windows pct max0 rep ws =
     Inr (map (\<lambda>w. (max0 (pct (fst w - start_date rep) (timedelta rep)),
                     pct (snd w - fst w) (timedelta rep))) ws)"
  by (auto simp: normalize_time_windows_def Let_def)

text \<open>
  C10. The timeline is the normalization of the concatenation of the compressed windows
  of the summaries in the order in which the alert names first appear in the filtered
  table, whatever the ranking of the displayed list; the windows of one alert name stand
  in it in ascending order of their starts.
\<close>

theorem timeline_in_encounter_order:
  assumes "template_vars pct max0 self df0 = Inr out"
  shows "\<exists>df names enc.
           filtered_table self df0 = Inr df \<and> column df ''alertname'' = Inr names
         \<and> encounter_summaries self df0 = Inr enc
         \<and> map alertname enc = unique names
         \<and> list_all (\<lambda>s. sorted (map fst (windows s))) enc
         \<and> normalize_time_windows pct max0 (report self) (concat (map windows enc)) = Inr (timeline out)
         \<and> timeline out =
             map (\<lambda>w. (max0 (pct (fst w - start_date (report self)) (timedelta (report self))),
                        pct (snd w - fst w) (timedelta (report self))))
               (concat (map windows enc))
         \<and> summary out = sorted_reverse total_time enc"
proof -
  from template_vars_shape [OF assms] obtain enc where
    enc: "encounter_summaries self df0 = Inr enc" "summary out = sorted_reverse total_time enc"
      "normalize_time_windows pct max0 (report self) (concat (map windows enc)) = Inr (timeline out)"
    by blast
  from encounter_names [OF enc(1)] obtain df names where
    df: "filtered_table self df0 = Inr df" "column df ''alertname'' = Inr names"
      "map alertname enc = unique names"
    by blast
  have o: "list_all (\<lambda>s. sorted (map fst (windows s))) enc"
    using summary_windows_ordered [OF enc(1)] by (rule list_all_mono') simp
  have m: "timeline out =
             map (\<lambda>w. (max0 (pct (fst w - start_date (report self)) (timedelta (report self))),
                        pct (snd w - fst w) (timedelta (report self))))
               (concat (map windows enc))"
    using enc(3) by (auto simp: normalize_time_windows_def Let_def split: if_splits)
  show ?thesis using enc df o m by blast
qed

theorem timeline_in_encounter_order_witness:
  "template_vars pct_floor max0_int example_view three_alerts_table = Inr three_alerts_result
   \<and> encounter_summaries example_view three_alerts_table =
       Inr [\<lparr>alertname = Some ''A'', total_time = sec 30, num_firings = 1, windows = [(sec 0, sec 30)]\<rparr>,
            \<lparr>alertname = Some ''B'', total_time = sec 10, num_firings = 1, windows = [(sec 100, sec 110)]\<rparr>,
            \<lparr>alertname = Some ''C'', total_time = sec 30, num_firings = 1, windows = [(sec 200, sec 230)]\<rparr>]
   \<and> normalize_time_windows pct_floor max0_int (report example_view)
         [(sec 0, sec 30), (sec 100, sec 110), (sec 200, sec 230)] = Inr (timeline three_alerts_result)
   \<and> map alertname (summary three_alerts_result) = [Some ''A'', Some ''C'', Some ''B'']
   \<and> normalize_time_windows pct_floor max0_int (report example_view)
         (concat (map windows (summary three_alerts_result))) \<noteq> Inr (timeline three_alerts_result)"
proof -
  have e: "encounter_summaries example_view three_alerts_table =
       Inr [\<lparr>alertname = Some ''A'', total_time = sec 30, num_firings = 1, windows = [(sec 0, sec 30)]\<rparr>,
            \<lparr>alertname = Some ''B'', total_time = sec 10, num_firings = 1, windows = [(sec 100, sec 110)]\<rparr>,
            \<lparr>alertname = Some ''C'', total_time = sec 30, num_firings = 1, windows = [(sec 200, sec 230)]\<rparr>]"
    by code_simp
  have r: "normalize_time_windows pct_floor max0_int (report example_view)
         (concat (map windows (summary three_alerts_result))) \<noteq> Inr (timeline three_alerts_result)"
    by code_simp
  have n: "map alertname (summary three_alerts_result) = [Some ''A'', Some ''C'', Some ''B'']"
    by (simp add: three_alerts_result_def)
  from timeline_in_encounter_order [OF three_alerts_run] obtain enc where
    "encounter_summaries example_view three_alerts_table = Inr enc"
    "normalize_time_windows pct_floor max0_int (report example_view) (concat (map windows enc))
       = Inr (timeline three_alerts_result)"
    by blast
  with e have "normalize_time_windows pct_floor max0_int (report example_view)
         [(sec 0, sec 30), (sec 100, sec 110), (sec 200, sec 230)] = Inr (timeline three_alerts_result)"
    by simp
  with e r n three_alerts_run show ?thesis by simp
qed


end
